theory Spec2Isabelle
  imports Complex_Main "HOL-Library.Word"
begin

section \<open>Native macOS dialogs, popup menus and pasteboard for JUCE\<close>

text \<open>
  A shallow embedding of \<^verbatim>\<open>juce_native_macos_dialogs.mm\<close>.  The module is glue
  between JUCE values and AppKit objects, so the embedding has two halves: the functions
  of the module, translated statement by statement, and a small model of the AppKit
  objects they drive (menus, menu items, the general pasteboard, a modal alert with a
  text field).  The AppKit half records only what the module's code reads or writes.

  Conventions.
  \<^item> \<^verbatim>\<open>juce::String\<close> and \<^verbatim>\<open>NSString\<close> are both \<^typ>\<open>string\<close>; the
    conversions through UTF-8 (\<^verbatim>\<open>toRawUTF8\<close>, \<^verbatim>\<open>stringWithUTF8String\<close>,
    \<^verbatim>\<open>UTF8String\<close>, \<^verbatim>\<open>fromUTF8\<close>) are the identity on text.
  \<^item> \<^verbatim>\<open>int\<close> item identifiers are \<^typ>\<open>32 word\<close>, \<^verbatim>\<open>NSInteger\<close> tags are
    \<^typ>\<open>64 word\<close>; the widening in \<^verbatim>\<open>setTag:\<close> is a sign extension and the
    \<^verbatim>\<open>(int)\<close> cast in \<^verbatim>\<open>menuItemSelected:\<close> keeps the low 32 bits.
  \<^item> \<^verbatim>\<open>CGFloat\<close> is \<^typ>\<open>real\<close>: the only arithmetic is one subtraction and one
    addition of 10 on screen coordinates.
  \<^item> An Objective-C object pointer is an address \<^typ>\<open>nat\<close>; a nullable pointer is
    an \<open>option\<close>.  Allocation hands out the next unused address.
\<close>

subsection \<open>JUCE side: \<^verbatim>\<open>PopupMenu\<close>, \<^verbatim>\<open>PopupMenu::Item\<close>, \<^verbatim>\<open>Point<int>\<close>, \<^verbatim>\<open>MemoryBlock\<close>\<close>

text \<open>
  The fields of \<^verbatim>\<open>PopupMenu::Item\<close> that the module reads.  The field \<^verbatim>\<open>text\<close> is
  called \<open>item_text\<close> here.  \<^verbatim>\<open>subMenu\<close> is a \<^verbatim>\<open>std::unique_ptr<PopupMenu>\<close>:
  \<open>None\<close> is the null pointer, \<open>Some []\<close> an empty submenu.
\<close>

datatype Item = Item (item_text: string) (itemID: "32 word") (isEnabled: bool)
  (isTicked: bool) (isSeparator: bool) (subMenu: "Item list option")

type_synonym PopupMenu = "Item list"

type_synonym Point = "int \<times> int"

definition getX :: "Point \<Rightarrow> int" where
  "getX p = fst p"

definition getY :: "Point \<Rightarrow> int" where
  "getY p = snd p"

type_synonym byte = "8 word"

type_synonym MemoryBlock = "byte list"

text \<open>\<^verbatim>\<open>MemoryBlock::replaceAll (src, n)\<close>: the block becomes the \<open>n\<close> bytes at \<open>src\<close>.\<close>

definition replaceAll :: "byte list \<Rightarrow> nat \<Rightarrow> MemoryBlock \<Rightarrow> MemoryBlock" where
  "replaceAll src n block = take n src"

text \<open>\<^verbatim>\<open>juce::Component\<close>: only \<^verbatim>\<open>getWindowHandle()\<close> is used; it may be null.\<close>

datatype Component = Component (getWindowHandle: "nat option")

subsection \<open>AppKit side: objects\<close>

type_synonym objc_id = nat

type_synonym NSPoint = "real \<times> real"

definition NSMakePoint :: "real \<Rightarrow> real \<Rightarrow> NSPoint" where
  "NSMakePoint x y = (x, y)"

datatype SEL = menuItemSelected_sel

datatype NSControlStateValue = NSControlStateValueOff | NSControlStateValueOn

datatype NSFont = SmallMenuFont

datatype NSMenuItem = NSMenuItem (self: objc_id) (isSeparatorItem: bool) (title: string)
    (action: "SEL option") (keyEquivalent: string) (tag: "64 word")
    (target: "objc_id option") (enabled: bool) (state: NSControlStateValue)
    (submenu: "NSMenu option")
and NSMenu = NSMenu (menu_self: objc_id) (menu_title: string) (autoenablesItems: bool)
    (font: "NSFont option") (itemArray: "NSMenuItem list")

datatype NSEventType = NSEventTypeLeftMouseDown | NSEventTypeOther

datatype NSEvent = NSEvent (event_type: NSEventType) (location: NSPoint)
    (modifierFlags: nat) (timestamp: real) (windowNumber: int) (eventNumber: int)
    (clickCount: int) (pressure: real)

datatype NSModalResponse = NSAlertFirstButtonReturn | NSAlertSecondButtonReturn

text \<open>
  The program state the popup functions touch: the file-scope variable
  \<^verbatim>\<open>gSelectedMenuItemID\<close> and the next unused object address.
\<close>

record world =
  gSelectedMenuItemID :: "32 word"
  heap_next :: nat

text \<open>
  What the popup functions read from AppKit during one call.  \<open>userChoice\<close> is what the
  user does while the menu is tracked: \<open>None\<close> dismisses the menu, \<open>Some p\<close> clicks the
  item reached by the index path \<open>p\<close> (top-level index first, then through submenus).
\<close>

record AppKit =
  mouseLocation :: NSPoint
  currentEvent :: "NSEvent option"
  systemUptime :: real
  mainScreen_frame_height :: real
  userChoice :: "nat list option"

definition alloc :: "nat \<Rightarrow> objc_id \<times> nat" where
  "alloc h = (h, Suc h)"

text \<open>\<^verbatim>\<open>[NSMenuItem separatorItem]\<close> and \<^verbatim>\<open>initWithTitle:action:keyEquivalent:\<close>.\<close>

definition separatorItem :: "objc_id \<Rightarrow> NSMenuItem" where
  "separatorItem a = NSMenuItem a True [] None [] 0 None True NSControlStateValueOff None"

definition initWithTitle_action_keyEquivalent ::
  "objc_id \<Rightarrow> string \<Rightarrow> SEL option \<Rightarrow> string \<Rightarrow> NSMenuItem" where
  "initWithTitle_action_keyEquivalent a t sel k =
     NSMenuItem a False t sel k 0 None True NSControlStateValueOff None"

fun setTag :: "64 word \<Rightarrow> NSMenuItem \<Rightarrow> NSMenuItem" where
  "setTag v (NSMenuItem a s t ac k tg tr e st sm) = NSMenuItem a s t ac k v tr e st sm"

fun setTarget :: "objc_id option \<Rightarrow> NSMenuItem \<Rightarrow> NSMenuItem" where
  "setTarget v (NSMenuItem a s t ac k tg tr e st sm) = NSMenuItem a s t ac k tg v e st sm"

fun setEnabled :: "bool \<Rightarrow> NSMenuItem \<Rightarrow> NSMenuItem" where
  "setEnabled v (NSMenuItem a s t ac k tg tr e st sm) = NSMenuItem a s t ac k tg tr v st sm"

fun setState :: "NSControlStateValue \<Rightarrow> NSMenuItem \<Rightarrow> NSMenuItem" where
  "setState v (NSMenuItem a s t ac k tg tr e st sm) = NSMenuItem a s t ac k tg tr e v sm"

fun setSubmenu :: "NSMenu option \<Rightarrow> NSMenuItem \<Rightarrow> NSMenuItem" where
  "setSubmenu v (NSMenuItem a s t ac k tg tr e st sm) = NSMenuItem a s t ac k tg tr e st v"

text \<open>\<^verbatim>\<open>[[NSMenu alloc] initWithTitle:]\<close> and the setters of \<^verbatim>\<open>NSMenu\<close>.\<close>

definition initWithTitle :: "objc_id \<Rightarrow> string \<Rightarrow> NSMenu" where
  "initWithTitle a t = NSMenu a t True None []"

fun setAutoenablesItems :: "bool \<Rightarrow> NSMenu \<Rightarrow> NSMenu" where
  "setAutoenablesItems v (NSMenu a t ae f its) = NSMenu a t v f its"

fun setFont :: "NSFont \<Rightarrow> NSMenu \<Rightarrow> NSMenu" where
  "setFont v (NSMenu a t ae f its) = NSMenu a t ae (Some v) its"

fun addItem :: "NSMenuItem \<Rightarrow> NSMenu \<Rightarrow> NSMenu" where
  "addItem i (NSMenu a t ae f its) = NSMenu a t ae f (its @ [i])"

subsection \<open>\<^verbatim>\<open>buildNSMenuFromJuceMenu\<close>\<close>

text \<open>
  The function and its \<^verbatim>\<open>while (iterator.next())\<close> loop.  The iterator is
  non-recursive, so the loop walks the top-level items in order.  The parameter
  \<^verbatim>\<open>NSMenuItem** outCheckedItem\<close> is an \<open>objc_id option option\<close>: \<open>None\<close> is the null
  pointer, \<open>Some c\<close> a pointer to a cell holding \<open>c\<close>; the cell's final content is
  returned.  The last component threads the next unused address.
\<close>

text \<open>
  The size of a call: twice the size of the menu tree still to be converted, plus one for
  a call of the function itself, which hands the same items to its loop.
\<close>

definition callMeasure ::
  "(PopupMenu \<times> objc_id \<times> objc_id option option \<times> string \<times> bool \<times> nat)
     + (Item list \<times> objc_id \<times> objc_id option option \<times> bool \<times> NSMenu \<times> nat) \<Rightarrow> nat" where
  "callMeasure x =
     (case x of
        Inl (m, _) \<Rightarrow> 2 * size_list size m + 1
      | Inr (items, _) \<Rightarrow> 2 * size_list size items)"

function buildNSMenuFromJuceMenu ::
  "PopupMenu \<Rightarrow> objc_id \<Rightarrow> objc_id option option \<Rightarrow> string \<Rightarrow> bool \<Rightarrow> nat
     \<Rightarrow> NSMenu \<times> objc_id option option \<times> nat"
and buildNSMenuFromJuceMenu_loop ::
  "Item list \<Rightarrow> objc_id \<Rightarrow> objc_id option option \<Rightarrow> bool \<Rightarrow> NSMenu \<Rightarrow> nat
     \<Rightarrow> NSMenu \<times> objc_id option option \<times> nat"
where
  "buildNSMenuFromJuceMenu juceMenu tgt outCheckedItem menuTitle useSmallSize h =
     (let (a, h1) = alloc h;
          nsMenu = initWithTitle a menuTitle;
          nsMenu = setAutoenablesItems False nsMenu;
          nsMenu = (if useSmallSize then setFont SmallMenuFont nsMenu else nsMenu)
      in buildNSMenuFromJuceMenu_loop juceMenu tgt outCheckedItem useSmallSize nsMenu h1)"
| "buildNSMenuFromJuceMenu_loop [] tgt outCheckedItem useSmallSize nsMenu h =
     (nsMenu, outCheckedItem, h)"
| "buildNSMenuFromJuceMenu_loop (item # rest) tgt outCheckedItem useSmallSize nsMenu h =
     (if isSeparator item then
        (let (a, h1) = alloc h
         in buildNSMenuFromJuceMenu_loop rest tgt outCheckedItem useSmallSize
              (addItem (separatorItem a) nsMenu) h1)
      else (case subMenu item of
        Some sub \<Rightarrow>
          (let (subM, _, h1) =
                 buildNSMenuFromJuceMenu sub tgt None (item_text item) useSmallSize h;
               (a, h2) = alloc h1;
               subMenuItem = initWithTitle_action_keyEquivalent a (item_text item) None [];
               subMenuItem = setSubmenu (Some subM) subMenuItem;
               subMenuItem = setEnabled (isEnabled item) subMenuItem
           in buildNSMenuFromJuceMenu_loop rest tgt outCheckedItem useSmallSize
                (addItem subMenuItem nsMenu) h2)
      | None \<Rightarrow>
          (let (a, h1) = alloc h;
               nsItem = initWithTitle_action_keyEquivalent a (item_text item)
                          (Some menuItemSelected_sel) [];
               nsItem = setTag (scast (itemID item)) nsItem;
               nsItem = setTarget (Some tgt) nsItem;
               nsItem = setEnabled (isEnabled item) nsItem;
               nsItem = setState (if isTicked item then NSControlStateValueOn
                                  else NSControlStateValueOff) nsItem;
               outCheckedItem =
                 (if isTicked item \<and> outCheckedItem \<noteq> None \<and> outCheckedItem = Some None
                  then Some (Some a) else outCheckedItem)
           in buildNSMenuFromJuceMenu_loop rest tgt outCheckedItem useSmallSize
                (addItem nsItem nsMenu) h1)))"
  by pat_completeness auto
termination
proof (relation "measure callMeasure", goal_cases)
  case (5 item rest tgt outCheckedItem useSmallSize nsMenu h x2)
  then show ?case by (cases item) (simp add: callMeasure_def)
qed (simp_all add: callMeasure_def)

subsection \<open>AppKit side: tracking a menu\<close>

text \<open>
  \<^verbatim>\<open>-[MenuItemTarget menuItemSelected:]\<close>: the sender's tag, cast to \<^verbatim>\<open>int\<close>, is
  stored in \<^verbatim>\<open>gSelectedMenuItemID\<close>.
\<close>

definition menuItemSelected :: "NSMenuItem \<Rightarrow> world \<Rightarrow> world" where
  "menuItemSelected sender s = s\<lparr>gSelectedMenuItemID := ucast (tag sender)\<rparr>"

text \<open>
  AppKit, while it tracks a menu: a click lands on the item at the end of an index path;
  only an enabled item that is neither a separator nor a submenu holder sends its action,
  and the action reaches the item's target.  Every other click, and a dismissal, sends
  nothing.
\<close>

fun itemAtPath :: "NSMenu \<Rightarrow> nat list \<Rightarrow> NSMenuItem option" where
  "itemAtPath m [] = None"
| "itemAtPath m [i] = (if i < length (itemArray m) then Some (itemArray m ! i) else None)"
| "itemAtPath m (i # j # p) =
     (if i < length (itemArray m)
      then (case submenu (itemArray m ! i) of
              Some sm \<Rightarrow> itemAtPath sm (j # p)
            | None \<Rightarrow> None)
      else None)"

definition sendAction :: "NSMenuItem \<Rightarrow> world \<Rightarrow> world" where
  "sendAction item s =
     (if enabled item \<and> \<not> isSeparatorItem item \<and> submenu item = None
      then (case action item of
              Some menuItemSelected_sel \<Rightarrow>
                (case target item of Some t \<Rightarrow> menuItemSelected item s | None \<Rightarrow> s)
            | None \<Rightarrow> s)
      else s)"

definition trackMenu :: "NSMenu \<Rightarrow> nat list option \<Rightarrow> world \<Rightarrow> world" where
  "trackMenu nsMenu choice s =
     (case choice of
        None \<Rightarrow> s
      | Some p \<Rightarrow> (case itemAtPath nsMenu p of None \<Rightarrow> s | Some item \<Rightarrow> sendAction item s))"

text \<open>
  The two ways the module pops a menu up.  \<^verbatim>\<open>popUpMenuPositioningItem:atLocation:inView:\<close>
  requires its item to be nil or an item of the receiving menu itself; handing it an item
  of a submenu is the crash the module's comments and README describe.
\<close>

datatype error = PositioningItemNotInMenu

datatype PopUp =
    PopUpContextMenu NSMenu NSEvent objc_id
  | PopUpMenuPositioningItem NSMenu "objc_id option" NSPoint

definition popUpContextMenu ::
  "NSMenu \<Rightarrow> NSEvent \<Rightarrow> objc_id \<Rightarrow> nat list option \<Rightarrow> world \<Rightarrow> world" where
  "popUpContextMenu nsMenu event view choice s = trackMenu nsMenu choice s"

definition popUpMenuPositioningItem ::
  "NSMenu \<Rightarrow> objc_id option \<Rightarrow> NSPoint \<Rightarrow> nat list option \<Rightarrow> world \<Rightarrow> error + world" where
  "popUpMenuPositioningItem nsMenu item atLocation choice s =
     (case item of
        None \<Rightarrow> Inr (trackMenu nsMenu choice s)
      | Some a \<Rightarrow>
          (if a \<in> set (map self (itemArray nsMenu))
           then Inr (trackMenu nsMenu choice s)
           else Inl PositioningItemNotInMenu))"

subsection \<open>\<^verbatim>\<open>NativeMacPopupMenu\<close>\<close>

text \<open>
  Each function returns the \<^verbatim>\<open>int\<close> result, the state it leaves and the popup call it
  made, or the error of the popup call.
\<close>

definition showPopupMenu ::
  "PopupMenu \<Rightarrow> Component option \<Rightarrow> bool \<Rightarrow> AppKit \<Rightarrow> world
     \<Rightarrow> error + (32 word \<times> world \<times> PopUp)" where
  "showPopupMenu menu parentComponent useSmallSize env s0 =
     (let s = s0\<lparr>gSelectedMenuItemID := 0\<rparr>;
          (tgt, h) = alloc (heap_next s);
          mouseLoc = mouseLocation env;
          view = (case parentComponent of
                    Some c \<Rightarrow> getWindowHandle c
                  | None \<Rightarrow> None);
          checkedItem = None;
          (nsMenu, cell, h) =
             buildNSMenuFromJuceMenu menu tgt (Some checkedItem) [] useSmallSize h;
          checkedItem = (case cell of Some c \<Rightarrow> c | None \<Rightarrow> checkedItem);
          s = s\<lparr>heap_next := h\<rparr>;
          event = (case currentEvent env of
                     Some e \<Rightarrow> e
                   | None \<Rightarrow> NSEvent NSEventTypeLeftMouseDown mouseLoc 0 (systemUptime env)
                               0 0 1 1)
      in (case view of
            Some v \<Rightarrow>
              (let s = popUpContextMenu nsMenu event v (userChoice env) s
               in Inr (gSelectedMenuItemID s, s, PopUpContextMenu nsMenu event v))
          | None \<Rightarrow>
              (case popUpMenuPositioningItem nsMenu checkedItem mouseLoc (userChoice env) s of
                 Inl e \<Rightarrow> Inl e
               | Inr s \<Rightarrow>
                   Inr (gSelectedMenuItemID s, s,
                        PopUpMenuPositioningItem nsMenu checkedItem mouseLoc))))"

definition showPopupMenuAt ::
  "PopupMenu \<Rightarrow> Point \<Rightarrow> bool \<Rightarrow> AppKit \<Rightarrow> world \<Rightarrow> error + (32 word \<times> world \<times> PopUp)" where
  "showPopupMenuAt menu screenPosition useSmallSize env s0 =
     (let s = s0\<lparr>gSelectedMenuItemID := 0\<rparr>;
          (tgt, h) = alloc (heap_next s);
          checkedItem = None;
          (nsMenu, cell, h) =
             buildNSMenuFromJuceMenu menu tgt (Some checkedItem) [] useSmallSize h;
          checkedItem = (case cell of Some c \<Rightarrow> c | None \<Rightarrow> checkedItem);
          s = s\<lparr>heap_next := h\<rparr>;
          yPos = mainScreen_frame_height env - real_of_int (getY screenPosition);
          yPos = (if checkedItem \<noteq> None then yPos + 10 else yPos);
          nsPosition = NSMakePoint (real_of_int (getX screenPosition)) yPos
      in (case popUpMenuPositioningItem nsMenu checkedItem nsPosition (userChoice env) s of
            Inl e \<Rightarrow> Inl e
          | Inr s \<Rightarrow>
              Inr (gSelectedMenuItemID s, s,
                   PopUpMenuPositioningItem nsMenu checkedItem nsPosition)))"

definition showPopupMenuAtFixed ::
  "PopupMenu \<Rightarrow> Point \<Rightarrow> bool \<Rightarrow> AppKit \<Rightarrow> world \<Rightarrow> error + (32 word \<times> world \<times> PopUp)" where
  "showPopupMenuAtFixed menu screenPosition useSmallSize env s0 =
     (let s = s0\<lparr>gSelectedMenuItemID := 0\<rparr>;
          (tgt, h) = alloc (heap_next s);
          (nsMenu, _, h) = buildNSMenuFromJuceMenu menu tgt None [] useSmallSize h;
          s = s\<lparr>heap_next := h\<rparr>;
          yPos = mainScreen_frame_height env - real_of_int (getY screenPosition);
          nsPosition = NSMakePoint (real_of_int (getX screenPosition)) yPos
      in (case popUpMenuPositioningItem nsMenu None nsPosition (userChoice env) s of
            Inl e \<Rightarrow> Inl e
          | Inr s \<Rightarrow>
              Inr (gSelectedMenuItemID s, s,
                   PopUpMenuPositioningItem nsMenu None nsPosition)))"

subsection \<open>\<^verbatim>\<open>NativeMacPasteboard\<close>\<close>

text \<open>
  The general pasteboard: the declared types and the data stored under each.
  \<^verbatim>\<open>declareTypes:owner:\<close> clears the pasteboard and declares the new types;
  \<^verbatim>\<open>setData:forType:\<close> stores data under a declared type and reports whether it did;
  \<^verbatim>\<open>dataForType:\<close> is nil for a type that holds no data.
\<close>

record NSPasteboard =
  declaredTypes :: "string list"
  pbData :: "string \<rightharpoonup> byte list"

definition declareTypes :: "string list \<Rightarrow> NSPasteboard \<Rightarrow> NSPasteboard" where
  "declareTypes newTypes pb = \<lparr>declaredTypes = newTypes, pbData = Map.empty\<rparr>"

definition setData :: "byte list \<Rightarrow> string \<Rightarrow> NSPasteboard \<Rightarrow> bool \<times> NSPasteboard" where
  "setData d t pb =
     (if t \<in> set (declaredTypes pb)
      then (True, pb\<lparr>pbData := (pbData pb)(t \<mapsto> d)\<rparr>)
      else (False, pb))"

definition dataForType :: "string \<Rightarrow> NSPasteboard \<Rightarrow> byte list option" where
  "dataForType t pb = pbData pb t"

text \<open>\<^verbatim>\<open>+[NSData dataWithBytes:length:]\<close> copies \<open>n\<close> bytes from the buffer.\<close>

definition dataWithBytes :: "byte list \<Rightarrow> nat \<Rightarrow> byte list" where
  "dataWithBytes bytes n = take n bytes"

definition copyDataToClipboard :: "byte list \<Rightarrow> nat \<Rightarrow> string \<Rightarrow> NSPasteboard \<Rightarrow> NSPasteboard" where
  "copyDataToClipboard data sz typeUTI pb =
     (let dataToCopy = dataWithBytes data sz;
          pasteboardType = typeUTI;
          pb = declareTypes [pasteboardType] pb;
          (_, pb) = setData dataToCopy pasteboardType pb
      in pb)"

definition fetchDataFromClipboard ::
  "MemoryBlock \<Rightarrow> string \<Rightarrow> NSPasteboard \<Rightarrow> bool \<times> MemoryBlock" where
  "fetchDataFromClipboard memoryBlock typeUTI pb =
     (let pasteboardType = typeUTI
      in (case dataForType pasteboardType pb of
            Some d \<Rightarrow> (True, replaceAll d (length d) memoryBlock)
          | None \<Rightarrow> (False, memoryBlock)))"

subsection \<open>\<^verbatim>\<open>NativeMacDialogs::showTextInputDialog\<close>\<close>

text \<open>
  The modal run of the alert.  The user makes a sequence of edits to the text field, each
  a function from the field's text to its new text, and then presses a button.  After
  each edit AppKit posts \<^verbatim>\<open>NSControlTextDidChangeNotification\<close>, which runs the
  observer block when one is installed.  Nothing is posted for the text that
  \<^verbatim>\<open>setStringValue:\<close> put there before the run.
\<close>

fun runModal ::
  "string \<Rightarrow> (string \<Rightarrow> string) option \<Rightarrow> (string \<Rightarrow> string) list \<Rightarrow> NSModalResponse
     \<Rightarrow> string \<times> NSModalResponse" where
  "runModal input observer [] button = (input, button)"
| "runModal input observer (edit # edits) button =
     (let input = edit input;
          input = (case observer of Some block \<Rightarrow> block input | None \<Rightarrow> input)
      in runModal input observer edits button)"

text \<open>The observer block: text longer than \<open>maxLength\<close> is cut to \<open>maxLength\<close>.\<close>

definition limitBlock :: "int \<Rightarrow> string \<Rightarrow> string" where
  "limitBlock maxLength text =
     (if int (length text) > maxLength then take (nat maxLength) text else text)"

definition showTextInputDialog ::
  "string \<Rightarrow> string \<Rightarrow> string \<Rightarrow> int \<Rightarrow> string \<Rightarrow> string \<Rightarrow> string
     \<Rightarrow> (string \<Rightarrow> string) list \<Rightarrow> NSModalResponse \<Rightarrow> bool \<times> string" where
  "showTextInputDialog ttl message currentText maxLength okButtonText cancelButtonText
       outText edits button =
     (let input = currentText;
          observer = (if maxLength > 0 then Some (limitBlock maxLength) else None);
          (input, result) = runModal input observer edits button
      in if result = NSAlertFirstButtonReturn
         then (True, input)
         else (False, outText))"

subsection \<open>Reading a menu\<close>

text \<open>
  What a native menu shows, address by address left out: per item whether it is a
  separator, a submenu holder (title, enabled flag, the submenu's items) or a plain item
  (title, tag, enabled flag, check state).
\<close>

datatype NativeItem =
    NativeSeparator
  | NativeSubmenu string bool "NativeItem list"
  | NativeLeaf string "64 word" bool NSControlStateValue

fun itemView :: "NSMenuItem \<Rightarrow> NativeItem" and menuView :: "NSMenu \<Rightarrow> NativeItem list" where
  "itemView (NSMenuItem a sep t ac k tg tr e st sm) =
     (if sep then NativeSeparator
      else case sm of
        Some m \<Rightarrow> NativeSubmenu t e (menuView m)
      | None \<Rightarrow> NativeLeaf t tg e st)"
| "menuView (NSMenu a t ae f its) = map itemView its"

text \<open>
  The conversion as the specification words it: separator to separator; submenu item to
  an item with the same title and enabled flag carrying the converted submenu; any other
  item to an item with the text as title, the identifier as tag, the enabled flag, and
  check state On exactly for a ticked item.
\<close>

fun convertedItem :: "Item \<Rightarrow> NativeItem" where
  "convertedItem (Item t i e tk sep sub) =
     (if sep then NativeSeparator
      else case sub of
        Some m \<Rightarrow> NativeSubmenu t e (map convertedItem m)
      | None \<Rightarrow> NativeLeaf t (scast i) e
                  (if tk then NSControlStateValueOn else NSControlStateValueOff))"

text \<open>The item of a JUCE menu at an index path, descending through submenu items.\<close>

fun juceItemAt :: "PopupMenu \<Rightarrow> nat list \<Rightarrow> Item option" where
  "juceItemAt m [] = None"
| "juceItemAt m [i] = (if i < length m then Some (m ! i) else None)"
| "juceItemAt m (i # j # p) =
     (if i < length m \<and> \<not> isSeparator (m ! i)
      then (case subMenu (m ! i) of
              Some sub \<Rightarrow> juceItemAt sub (j # p)
            | None \<Rightarrow> None)
      else None)"

text \<open>
  The identifier a user's choice stands for: the \<open>itemID\<close> of the chosen item when the
  choice is an enabled plain item, and 0 when the menu is dismissed or the click lands
  on nothing that can be chosen.
\<close>

definition chosenItemID :: "PopupMenu \<Rightarrow> nat list option \<Rightarrow> 32 word" where
  "chosenItemID menu choice =
     (case choice of
        None \<Rightarrow> 0
      | Some p \<Rightarrow>
          (case juceItemAt menu p of
             None \<Rightarrow> 0
           | Some item \<Rightarrow>
               (if \<not> isSeparator item \<and> subMenu item = None \<and> isEnabled item
                then itemID item else 0)))"

text \<open>
  An item the module treats as checked: ticked, and neither a separator nor a submenu
  holder.  \<open>firstTicked\<close> is the index of the first such item of a menu's top level.
\<close>

definition tickedPlain :: "Item \<Rightarrow> bool" where
  "tickedPlain item = (\<not> isSeparator item \<and> subMenu item = None \<and> isTicked item)"

fun firstTicked :: "Item list \<Rightarrow> nat option" where
  "firstTicked [] = None"
| "firstTicked (item # rest) =
     (if tickedPlain item then Some 0 else map_option Suc (firstTicked rest))"

text \<open>
  Addresses of menu items: of every item of a menu at any depth, and of the items that
  sit inside submenus only.
\<close>

fun itemAddrs :: "NSMenuItem \<Rightarrow> objc_id list" and menuItemAddrs :: "NSMenu \<Rightarrow> objc_id list" where
  "itemAddrs (NSMenuItem a sep t ac k tg tr e st sm) =
     a # (case sm of Some m \<Rightarrow> menuItemAddrs m | None \<Rightarrow> [])"
| "menuItemAddrs (NSMenu a t ae f its) = concat (map itemAddrs its)"

definition submenuItemAddrs :: "NSMenu \<Rightarrow> objc_id list" where
  "submenuItemAddrs m =
     concat (map (\<lambda>item. case submenu item of Some sm \<Rightarrow> menuItemAddrs sm | None \<Rightarrow> [])
                 (itemArray m))"

text \<open>
  The number of native objects one conversion creates: one menu, one item per JUCE item,
  and the same again for every submenu that is converted.
\<close>

fun itemObjects :: "Item \<Rightarrow> nat" where
  "itemObjects (Item t i e tk sep sub) =
     (if sep then 1
      else case sub of
        Some m \<Rightarrow> Suc (Suc (sum_list (map itemObjects m)))
      | None \<Rightarrow> 1)"

definition menuObjects :: "PopupMenu \<Rightarrow> nat" where
  "menuObjects m = Suc (sum_list (map itemObjects m))"

subsection \<open>Notions used to state and prove the properties\<close>

text \<open>The \<^verbatim>\<open>int\<close> an entry point returns, when the popup call did not fail.\<close>

definition returnValue :: "error + (32 word \<times> world \<times> PopUp) \<Rightarrow> 32 word option" where
  "returnValue r = (case r of Inl e \<Rightarrow> None | Inr (v, s, c) \<Rightarrow> Some v)"

text \<open>
  A native menu is wired to a target when every plain item in it, at any depth, carries
  the selector \<^verbatim>\<open>menuItemSelected:\<close> and that target, and no separator has a submenu.
\<close>

fun itemWired :: "objc_id \<Rightarrow> NSMenuItem \<Rightarrow> bool" and menuWired :: "objc_id \<Rightarrow> NSMenu \<Rightarrow> bool" where
  "itemWired tgt (NSMenuItem a sep t ac k tg tr e st sm) =
     (if sep then sm = None
      else case sm of
        Some m \<Rightarrow> menuWired tgt m
      | None \<Rightarrow> ac = Some menuItemSelected_sel \<and> tr = Some tgt)"
| "menuWired tgt (NSMenu a t ae f its) = (\<forall>item \<in> set its. itemWired tgt item)"

text \<open>
  The content of the \<^verbatim>\<open>outCheckedItem\<close> cell after the loop has added the native items
  \<open>new\<close> for the JUCE items \<open>items\<close>: a null pointer stays null, a cell that was already
  set keeps its content, an empty cell receives the first checked item.
\<close>

definition cellAfter ::
  "objc_id option option \<Rightarrow> NSMenuItem list \<Rightarrow> Item list \<Rightarrow> objc_id option option" where
  "cellAfter out new items =
     (case out of
        Some None \<Rightarrow> Some (map_option (\<lambda>i. self (new ! i)) (firstTicked items))
      | _ \<Rightarrow> out)"

text \<open>
  The native menu an entry point builds in world \<open>s\<close> (the target object takes the first
  free address, the menu is built after it), with or without a cell for the checked
  item, and the item such a cell ends up holding.
\<close>

definition builtMenu :: "PopupMenu \<Rightarrow> bool \<Rightarrow> world \<Rightarrow> bool \<Rightarrow> NSMenu" where
  "builtMenu menu useSmallSize s track =
     fst (buildNSMenuFromJuceMenu menu (heap_next s) (if track then Some None else None) []
            useSmallSize (Suc (heap_next s)))"

definition recordedItem :: "PopupMenu \<Rightarrow> NSMenu \<Rightarrow> objc_id option" where
  "recordedItem menu nsMenu = map_option (\<lambda>i. self (itemArray nsMenu ! i)) (firstTicked menu)"

text \<open>
  A concrete menu, environment and world for the worked instances: a plain item, a
  separator, a submenu holding one ticked item, and a ticked top-level item; the user
  clicks the item inside the submenu; the variable holds a stale 42.
\<close>

definition exampleMenu :: PopupMenu where
  "exampleMenu =
     [Item ''Cut'' 1 True False False None,
      Item [] 0 True False True None,
      Item ''More'' 0 True False False (Some [Item ''Deep'' 7 True True False None]),
      Item ''Big'' 5 True True False None]"

definition exampleEnv :: AppKit where
  "exampleEnv = \<lparr>mouseLocation = (0, 0), currentEvent = None, systemUptime = 0,
                 mainScreen_frame_height = 900, userChoice = Some [2, 0]\<rparr>"

definition exampleWorld :: world where
  "exampleWorld = \<lparr>gSelectedMenuItemID = 42, heap_next = 0\<rparr>"

section \<open>Properties\<close>

subsection \<open>The worked instance\<close>

text \<open>Unfolding these definitions evaluates the functions on the worked instance.\<close>

lemmas eval_defs = exampleMenu_def exampleEnv_def exampleWorld_def alloc_def
     Let_def separatorItem_def initWithTitle_action_keyEquivalent_def initWithTitle_def
     popUpMenuPositioningItem_def popUpContextMenu_def trackMenu_def sendAction_def
     menuItemSelected_def NSMakePoint_def getX_def getY_def returnValue_def

text \<open>Two calls the conversion of the worked instance makes.\<close>

lemma example_recursive_call:
  "buildNSMenuFromJuceMenu_buildNSMenuFromJuceMenu_loop_rel
     (Inl ([Item ''Deep'' 7 True True False None], 0, None,
           item_text (Item ''More'' 0 True False False
                        (Some [Item ''Deep'' 7 True True False None])), False, 4))
     (Inr (Item ''More'' 0 True False False (Some [Item ''Deep'' 7 True True False None])
             # [Item ''Big'' 5 True True False None],
           0, Some None, False, NSMenu 1 [] False None [], 4))"
  by (rule buildNSMenuFromJuceMenu_buildNSMenuFromJuceMenu_loop_rel.intros) simp_all

lemma example_loop_call:
  "buildNSMenuFromJuceMenu_buildNSMenuFromJuceMenu_loop_rel
     (Inr ([Item ''Big'' 5 True True False None], 0, Some None, False,
           addItem (separatorItem 3) (NSMenu 1 [] False None []), 4))
     (Inr (Item [] 0 True False True None # [Item ''Big'' 5 True True False None],
           0, Some None, False, NSMenu 1 [] False None [], 3))"
  by (rule buildNSMenuFromJuceMenu_buildNSMenuFromJuceMenu_loop_rel.intros(2)
        [where x = "alloc 3"]) (simp_all add: alloc_def)

subsection \<open>The conversion, item by item\<close>

lemma menuView_addItem [simp]: "menuView (addItem i m) = menuView m @ [itemView i]"
  by (cases m) simp

lemma menuView_setFont [simp]: "menuView (setFont f m) = menuView m"
  by (cases m) simp

lemma menuView_setAutoenablesItems [simp]: "menuView (setAutoenablesItems b m) = menuView m"
  by (cases m) simp

lemma menuView_initWithTitle [simp]: "menuView (initWithTitle a t) = []"
  by (simp add: initWithTitle_def)

lemma length_menuView [simp]: "length (menuView m) = length (itemArray m)"
  by (cases m) simp

lemma itemView_created [simp]:
  "itemView (separatorItem a) = NativeSeparator"
  "itemView (setEnabled e (setSubmenu (Some sm) (initWithTitle_action_keyEquivalent a t ac k)))
     = NativeSubmenu t e (menuView sm)"
  "itemView (setState st (setEnabled e (setTarget tr (setTag tg
       (initWithTitle_action_keyEquivalent a t ac k))))) = NativeLeaf t tg e st"
  by (simp_all add: separatorItem_def initWithTitle_action_keyEquivalent_def)

lemma convertedItem_sel:
  "convertedItem item =
     (if isSeparator item then NativeSeparator
      else case subMenu item of
        Some m \<Rightarrow> NativeSubmenu (item_text item) (isEnabled item) (map convertedItem m)
      | None \<Rightarrow> NativeLeaf (item_text item) (scast (itemID item)) (isEnabled item)
                  (if isTicked item then NSControlStateValueOn else NSControlStateValueOff))"
  by (cases item) (auto split: option.splits)

lemma view_build:
  "menuView (fst (buildNSMenuFromJuceMenu m tgt out ttl small h)) = map convertedItem m"
  "menuView (fst (buildNSMenuFromJuceMenu_loop items tgt out small nsMenu h))
     = menuView nsMenu @ map convertedItem items"
proof (induct m tgt out ttl small h and items tgt out small nsMenu h
       rule: buildNSMenuFromJuceMenu_buildNSMenuFromJuceMenu_loop.induct)
  case (1 juceMenu tgt outCheckedItem menuTitle useSmallSize h)
  then show ?case by (simp add: alloc_def Let_def)
next
  case (2 tgt outCheckedItem useSmallSize nsMenu h)
  then show ?case by simp
next
  case (3 item rest tgt outCheckedItem useSmallSize nsMenu h)
  then show ?case
    by (auto simp: alloc_def Let_def convertedItem_sel split: prod.splits option.splits)
qed

text \<open>
  C1.  For every JUCE menu, the native menu built by \<open>buildNSMenuFromJuceMenu\<close> has one
  item per source item, in the same order: a separator for a separator; for an item with
  a submenu an item with the same title and enabled flag that carries the converted
  submenu; for any other item an item whose title is the text, whose tag is the
  \<open>itemID\<close>, whose enabled flag is \<open>isEnabled\<close> and whose check state is On exactly when
  \<open>isTicked\<close> holds.
\<close>

theorem build_converts_items:
  "menuView (fst (buildNSMenuFromJuceMenu juceMenu tgt outCheckedItem menuTitle useSmallSize h))
     = map convertedItem juceMenu
   \<and> length (itemArray (fst (buildNSMenuFromJuceMenu juceMenu tgt outCheckedItem menuTitle
                               useSmallSize h))) = length juceMenu"
proof -
  let ?m = "fst (buildNSMenuFromJuceMenu juceMenu tgt outCheckedItem menuTitle useSmallSize h)"
  have v: "menuView ?m = map convertedItem juceMenu" by (rule view_build(1))
  have "length (itemArray ?m) = length (menuView ?m)" by simp
  with v show ?thesis by simp
qed

theorem build_converts_items_witness:
  "menuView (fst (buildNSMenuFromJuceMenu exampleMenu 0 (Some None) [] False 1))
     = [NativeLeaf ''Cut'' 1 True NSControlStateValueOff,
        NativeSeparator,
        NativeSubmenu ''More'' True [NativeLeaf ''Deep'' 7 True NSControlStateValueOn],
        NativeLeaf ''Big'' 5 True NSControlStateValueOn]"
  using build_converts_items [where juceMenu = exampleMenu and tgt = 0
          and outCheckedItem = "Some None" and menuTitle = "[]" and useSmallSize = False
          and h = 1]
  by (simp add: exampleMenu_def)

subsection \<open>Pasteboard\<close>

text \<open>
  C6.  Copy then fetch restores the bytes: after \<open>copyDataToClipboard data sz uti\<close>, with
  \<open>sz\<close> bytes available at \<open>data\<close>, \<open>fetchDataFromClipboard\<close> with the same \<open>uti\<close>
  returns true and leaves the block holding exactly those \<open>sz\<close> bytes.
\<close>

theorem clipboard_round_trip:
  "sz \<le> length data \<Longrightarrow>
     fetchDataFromClipboard block uti (copyDataToClipboard data sz uti pb) = (True, take sz data)
     \<and> length (take sz data) = sz"
  by (simp add: fetchDataFromClipboard_def copyDataToClipboard_def dataWithBytes_def
        declareTypes_def setData_def dataForType_def replaceAll_def)

theorem clipboard_round_trip_witness:
  "(2::nat) \<le> length [1, 2, 3 :: byte] \<and>
   fetchDataFromClipboard [9] ''com.x.y''
     (copyDataToClipboard [1, 2, 3] 2 ''com.x.y'' \<lparr>declaredTypes = [], pbData = Map.empty\<rparr>)
   = (True, [1, 2])"
  using clipboard_round_trip [of 2 "[1, 2, 3]" "[9]" "''com.x.y''"
          "\<lparr>declaredTypes = [], pbData = Map.empty\<rparr>"]
  by simp

text \<open>
  C9.  When the pasteboard holds no data for the requested type,
  \<open>fetchDataFromClipboard\<close> returns false and the block is as it was; whenever the
  function returns false the block is untouched, so it is overwritten only on the branch
  that returns true.
\<close>

theorem fetch_without_data:
  "(dataForType uti pb = None \<longrightarrow> fetchDataFromClipboard block uti pb = (False, block))
   \<and> (\<not> fst (fetchDataFromClipboard block uti pb)
        \<longrightarrow> snd (fetchDataFromClipboard block uti pb) = block)"
  by (simp add: fetchDataFromClipboard_def split: option.splits)

theorem fetch_without_data_witness:
  "dataForType ''com.x.y'' \<lparr>declaredTypes = [], pbData = Map.empty\<rparr> = None
   \<and> fetchDataFromClipboard [7, 8 :: byte] ''com.x.y'' \<lparr>declaredTypes = [], pbData = Map.empty\<rparr>
       = (False, [7, 8])"
  using fetch_without_data [of "''com.x.y''" "\<lparr>declaredTypes = [], pbData = Map.empty\<rparr>" "[7, 8]"]
  by (simp add: dataForType_def)

subsection \<open>Text input dialog\<close>

text \<open>
  The observer does enforce the limit once the user has edited the field.
\<close>

lemma runModal_limited:
  "0 < maxLength \<Longrightarrow> edits \<noteq> [] \<Longrightarrow>
     int (length (fst (runModal input (Some (limitBlock maxLength)) edits button))) \<le> maxLength"
proof (induction edits arbitrary: input)
  case Nil
  then show ?case by simp
next
  case (Cons e es)
  show ?case
  proof (cases es)
    case Nil
    with Cons.prems show ?thesis by (simp add: limitBlock_def Let_def)
  next
    case (Cons e' es')
    with Cons.IH [of "limitBlock maxLength (e input)"] Cons.prems show ?thesis
      by (simp add: Let_def)
  qed
qed

text \<open>
  C10.  The length limit lives in the text-change observer only; the initial
  \<open>currentText\<close> goes into the field uncut.  So when the user accepts the dialog without
  editing, the text returned is \<open>currentText\<close>, whatever \<open>maxLength\<close> is, also when
  \<open>currentText\<close> is longer than a positive \<open>maxLength\<close>.
\<close>

theorem text_input_unedited:
  "showTextInputDialog ttl message currentText maxLength okButtonText cancelButtonText
     outText [] NSAlertFirstButtonReturn = (True, currentText)"
  by (simp add: showTextInputDialog_def)

theorem text_input_unedited_witness:
  "(0::int) < 3 \<and> 3 < int (length ''abcdef'') \<and>
   showTextInputDialog ''T'' ''M'' ''abcdef'' 3 ''OK'' ''Cancel'' [] [] NSAlertFirstButtonReturn
     = (True, ''abcdef'')"
  using text_input_unedited [of "''T''" "''M''" "''abcdef''" 3 "''OK''" "''Cancel''" "[]"]
  by simp

subsection \<open>Popup menus\<close>

lemma menuWired_addItem [simp]:
  "menuWired tgt (addItem i m) = (menuWired tgt m \<and> itemWired tgt i)"
  by (cases m) auto

lemma menuWired_setFont [simp]: "menuWired tgt (setFont f m) = menuWired tgt m"
  by (cases m) simp

lemma menuWired_setAutoenablesItems [simp]:
  "menuWired tgt (setAutoenablesItems b m) = menuWired tgt m"
  by (cases m) simp

lemma menuWired_initWithTitle [simp]: "menuWired tgt (initWithTitle a t)"
  by (simp add: initWithTitle_def)

lemma itemWired_created [simp]:
  "itemWired tgt (separatorItem a)"
  "itemWired tgt (setEnabled e (setSubmenu (Some sm)
       (initWithTitle_action_keyEquivalent a t ac k))) = menuWired tgt sm"
  "itemWired tgt (setState st (setEnabled e (setTarget (Some tgt) (setTag tg
       (initWithTitle_action_keyEquivalent a t (Some menuItemSelected_sel) k)))))"
  by (simp_all add: separatorItem_def initWithTitle_action_keyEquivalent_def)

lemma wired_build:
  "menuWired tgt (fst (buildNSMenuFromJuceMenu m tgt out ttl small h))"
  "menuWired tgt nsMenu \<Longrightarrow>
     menuWired tgt (fst (buildNSMenuFromJuceMenu_loop items tgt out small nsMenu h))"
proof (induct m tgt out ttl small h and items tgt out small nsMenu h
       rule: buildNSMenuFromJuceMenu_buildNSMenuFromJuceMenu_loop.induct)
  case (1 juceMenu tgt outCheckedItem menuTitle useSmallSize h)
  then show ?case by (simp add: alloc_def Let_def)
next
  case (2 tgt outCheckedItem useSmallSize nsMenu h)
  then show ?case by simp
next
  case (3 item rest tgt outCheckedItem useSmallSize nsMenu h)
  then show ?case
    by (auto simp: alloc_def Let_def split: prod.splits option.splits)
qed

lemma menuWired_nth:
  "menuWired tgt m \<Longrightarrow> i < length (itemArray m) \<Longrightarrow> itemWired tgt (itemArray m ! i)"
  by (cases m) simp

lemma itemView_nth:
  "i < length (itemArray m) \<Longrightarrow> itemView (itemArray m ! i) = menuView m ! i"
  by (cases m) simp

lemma itemView_separator:
  "itemWired tgt n \<Longrightarrow> itemView n = NativeSeparator \<Longrightarrow> submenu n = None \<and> isSeparatorItem n"
  by (cases n) (auto split: if_splits option.splits)

lemma itemView_submenu:
  "itemWired tgt n \<Longrightarrow> itemView n = NativeSubmenu t e vs \<Longrightarrow>
     \<exists>sm. submenu n = Some sm \<and> menuView sm = vs \<and> menuWired tgt sm"
  by (cases n) (auto split: if_splits option.splits)

lemma itemView_leaf:
  "itemWired tgt n \<Longrightarrow> itemView n = NativeLeaf t tg e st \<Longrightarrow>
     submenu n = None \<and> \<not> isSeparatorItem n \<and> action n = Some menuItemSelected_sel
     \<and> target n = Some tgt \<and> tag n = tg \<and> enabled n = e"
  by (cases n) (auto split: if_splits option.splits)

lemma path_correspondence:
  "menuWired tgt nsMenu \<Longrightarrow> menuView nsMenu = map convertedItem menu \<Longrightarrow>
     (case juceItemAt menu p of
        None \<Rightarrow> itemAtPath nsMenu p = None
      | Some item \<Rightarrow> (\<exists>n. itemAtPath nsMenu p = Some n \<and> itemWired tgt n
                          \<and> itemView n = convertedItem item))"
proof (induction menu p arbitrary: nsMenu rule: juceItemAt.induct)
  case (1 m)
  then show ?case by simp
next
  case (2 m i)
  have len: "length (itemArray nsMenu) = length m"
    using "2.prems"(2) by (metis length_map length_menuView)
  show ?case
  proof (cases "i < length m")
    case True
    with len "2.prems" show ?thesis
      by (simp add: menuWired_nth itemView_nth)
  next
    case False
    with len show ?thesis by simp
  qed
next
  case (3 m i j p)
  have len: "length (itemArray nsMenu) = length m"
    using "3.prems"(2) by (metis length_map length_menuView)
  show ?case
  proof (cases "i < length m")
    case False
    with len show ?thesis by simp
  next
    case True
    let ?n = "itemArray nsMenu ! i"
    have w: "itemWired tgt ?n" using True len "3.prems"(1) by (simp add: menuWired_nth)
    have v: "itemView ?n = convertedItem (m ! i)"
      using True len "3.prems"(2) by (simp add: itemView_nth)
    show ?thesis
    proof (cases "isSeparator (m ! i)")
      case sep: True
      with v have "itemView ?n = NativeSeparator" by (simp add: convertedItem_sel)
      with w have "submenu ?n = None" by (simp add: itemView_separator)
      with sep True len show ?thesis by simp
    next
      case nsep: False
      show ?thesis
      proof (cases "subMenu (m ! i)")
        case None
        with v nsep have "\<exists>t tg e st. itemView ?n = NativeLeaf t tg e st"
          by (simp add: convertedItem_sel)
        with w have "submenu ?n = None" by (auto dest: itemView_leaf)
        with None nsep True len show ?thesis by simp
      next
        case (Some sub)
        with v nsep have "itemView ?n = NativeSubmenu (item_text (m ! i)) (isEnabled (m ! i))
                             (map convertedItem sub)"
          by (simp add: convertedItem_sel)
        with w obtain sm where sm: "submenu ?n = Some sm" "menuView sm = map convertedItem sub"
            "menuWired tgt sm"
          by (blast dest: itemView_submenu)
        from "3.IH" [OF _ Some sm(3) sm(2)] True nsep
        have "case juceItemAt sub (j # p) of
                None \<Rightarrow> itemAtPath sm (j # p) = None
              | Some item \<Rightarrow> (\<exists>n. itemAtPath sm (j # p) = Some n \<and> itemWired tgt n
                                  \<and> itemView n = convertedItem item)"
          by simp
        with Some nsep True len sm(1) show ?thesis by (auto split: option.splits)
      qed
    qed
  qed
qed

lemma int_cast_tag: "(ucast (scast (w :: 32 word) :: 64 word) :: 32 word) = w"
  apply (rule bit_word_eqI)
  apply (auto simp: bit_simps)
  done

lemma sendAction_wired:
  "itemWired tgt n \<Longrightarrow>
     sendAction n s =
       (case itemView n of
          NativeLeaf t tg e st \<Rightarrow> (if e then s\<lparr>gSelectedMenuItemID := ucast tg\<rparr> else s)
        | _ \<Rightarrow> s)"
  by (cases n) (auto simp: sendAction_def menuItemSelected_def split: option.splits)

lemma trackMenu_built:
  assumes w: "menuWired tgt nsMenu" and v: "menuView nsMenu = map convertedItem menu"
    and z: "gSelectedMenuItemID s = 0"
  shows "trackMenu nsMenu choice s = s\<lparr>gSelectedMenuItemID := chosenItemID menu choice\<rparr>"
proof (cases choice)
  case None
  with z show ?thesis by (simp add: trackMenu_def chosenItemID_def)
next
  case (Some p)
  note pc = path_correspondence [OF w v, of p]
  show ?thesis
  proof (cases "juceItemAt menu p")
    case None
    with pc Some z show ?thesis by (simp add: trackMenu_def chosenItemID_def)
  next
    case (Some item)
    with pc obtain n where n: "itemAtPath nsMenu p = Some n" "itemWired tgt n"
        "itemView n = convertedItem item"
      by auto
    have "sendAction n s =
            s\<lparr>gSelectedMenuItemID :=
                 (if \<not> isSeparator item \<and> subMenu item = None \<and> isEnabled item
                  then itemID item else 0)\<rparr>"
      using z by (simp add: sendAction_wired [OF n(2)] n(3) convertedItem_sel int_cast_tag
                    split: option.splits)
    with n(1) Some \<open>choice = Some p\<close> show ?thesis
      by (simp add: trackMenu_def chosenItemID_def)
  qed
qed

lemma itemArray_addItem [simp]: "itemArray (addItem i m) = itemArray m @ [i]"
  by (cases m) simp

lemma itemArray_setFont [simp]: "itemArray (setFont f m) = itemArray m"
  by (cases m) simp

lemma itemArray_setAutoenablesItems [simp]: "itemArray (setAutoenablesItems b m) = itemArray m"
  by (cases m) simp

lemma itemArray_initWithTitle [simp]: "itemArray (initWithTitle a t) = []"
  by (simp add: initWithTitle_def)

lemma self_created [simp]:
  "self (separatorItem a) = a"
  "self (initWithTitle_action_keyEquivalent a t ac k) = a"
  "self (setEnabled e n) = self n"
  "self (setSubmenu sm n) = self n"
  "self (setState st n) = self n"
  "self (setTarget tr n) = self n"
  "self (setTag tg n) = self n"
  by (simp_all add: separatorItem_def initWithTitle_action_keyEquivalent_def, (cases n, simp)+)

lemma loop_cell:
  "\<exists>new. itemArray (fst (buildNSMenuFromJuceMenu_loop items tgt out small nsMenu h))
            = itemArray nsMenu @ new
        \<and> length new = length items
        \<and> fst (snd (buildNSMenuFromJuceMenu_loop items tgt out small nsMenu h))
            = cellAfter out new items"
proof (induction items arbitrary: out nsMenu h)
  case Nil
  show ?case by (simp add: cellAfter_def split: option.splits)
next
  case (Cons item rest)
  show ?case
  proof (cases "isSeparator item")
    case True
    from Cons.IH [of out "addItem (separatorItem h) nsMenu" "Suc h"]
    obtain new where new:
      "itemArray (fst (buildNSMenuFromJuceMenu_loop rest tgt out small
                         (addItem (separatorItem h) nsMenu) (Suc h)))
         = itemArray (addItem (separatorItem h) nsMenu) @ new"
      "length new = length rest"
      "fst (snd (buildNSMenuFromJuceMenu_loop rest tgt out small
                   (addItem (separatorItem h) nsMenu) (Suc h))) = cellAfter out new rest"
      by blast
    show ?thesis
      apply (rule exI [of _ "separatorItem h # new"])
      using True new
      apply (auto simp: alloc_def cellAfter_def tickedPlain_def option.map_comp o_def
                split: option.splits)
      done
  next
    case nsep: False
    show ?thesis
    proof (cases "subMenu item")
      case None
      let ?n = "setState (if isTicked item then NSControlStateValueOn else NSControlStateValueOff)
                  (setEnabled (isEnabled item) (setTarget (Some tgt) (setTag (scast (itemID item))
                    (initWithTitle_action_keyEquivalent h (item_text item)
                       (Some menuItemSelected_sel) []))))"
      let ?out = "if isTicked item \<and> out \<noteq> None \<and> out = Some None then Some (Some h) else out"
      from Cons.IH [of ?out "addItem ?n nsMenu" "Suc h"]
      obtain new where new:
        "itemArray (fst (buildNSMenuFromJuceMenu_loop rest tgt ?out small
                           (addItem ?n nsMenu) (Suc h)))
           = itemArray (addItem ?n nsMenu) @ new"
        "length new = length rest"
        "fst (snd (buildNSMenuFromJuceMenu_loop rest tgt ?out small
                     (addItem ?n nsMenu) (Suc h))) = cellAfter ?out new rest"
        by blast
      show ?thesis
        apply (rule exI [of _ "?n # new"])
        using None nsep new
        apply (auto simp: alloc_def Let_def cellAfter_def tickedPlain_def option.map_comp o_def
                split: option.splits)
        done
    next
      case (Some sub)
      obtain subM c h1 where b:
        "buildNSMenuFromJuceMenu sub tgt None (item_text item) small h = (subM, c, h1)"
        by (cases "buildNSMenuFromJuceMenu sub tgt None (item_text item) small h") auto
      let ?n = "setEnabled (isEnabled item) (setSubmenu (Some subM)
                  (initWithTitle_action_keyEquivalent h1 (item_text item) None []))"
      from Cons.IH [of out "addItem ?n nsMenu" "Suc h1"]
      obtain new where new:
        "itemArray (fst (buildNSMenuFromJuceMenu_loop rest tgt out small
                           (addItem ?n nsMenu) (Suc h1)))
           = itemArray (addItem ?n nsMenu) @ new"
        "length new = length rest"
        "fst (snd (buildNSMenuFromJuceMenu_loop rest tgt out small
                     (addItem ?n nsMenu) (Suc h1))) = cellAfter out new rest"
        by blast
      show ?thesis
        apply (rule exI [of _ "?n # new"])
        using Some nsep new b
        apply (auto simp: alloc_def Let_def cellAfter_def tickedPlain_def option.map_comp o_def
                split: option.splits)
        done
    qed
  qed
qed

lemma build_cell:
  "fst (snd (buildNSMenuFromJuceMenu m tgt out ttl small h))
     = cellAfter out (itemArray (fst (buildNSMenuFromJuceMenu m tgt out ttl small h))) m"
proof -
  let ?m0 = "setAutoenablesItems False (initWithTitle h ttl)"
  let ?m1 = "if small then setFont SmallMenuFont ?m0 else ?m0"
  from loop_cell [of m tgt out small ?m1 "Suc h"]
  obtain new where
    "itemArray (fst (buildNSMenuFromJuceMenu_loop m tgt out small ?m1 (Suc h)))
       = itemArray ?m1 @ new"
    "fst (snd (buildNSMenuFromJuceMenu_loop m tgt out small ?m1 (Suc h)))
       = cellAfter out new m"
    by blast
  then show ?thesis by (simp add: alloc_def Let_def)
qed

lemma menuItemAddrs_addItem [simp]:
  "menuItemAddrs (addItem i m) = menuItemAddrs m @ itemAddrs i"
  by (cases m) simp

lemma menuItemAddrs_setFont [simp]: "menuItemAddrs (setFont f m) = menuItemAddrs m"
  by (cases m) simp

lemma menuItemAddrs_setAutoenablesItems [simp]:
  "menuItemAddrs (setAutoenablesItems b m) = menuItemAddrs m"
  by (cases m) simp

lemma menuItemAddrs_initWithTitle [simp]: "menuItemAddrs (initWithTitle a t) = []"
  by (simp add: initWithTitle_def)

lemma itemAddrs_created [simp]:
  "itemAddrs (separatorItem a) = [a]"
  "itemAddrs (setEnabled e (setSubmenu (Some sm) (initWithTitle_action_keyEquivalent a t ac k)))
     = a # menuItemAddrs sm"
  "itemAddrs (setState st (setEnabled e (setTarget tr (setTag tg
       (initWithTitle_action_keyEquivalent a t ac k))))) = [a]"
  by (simp_all add: separatorItem_def initWithTitle_action_keyEquivalent_def)

lemma itemAddrs_sel:
  "itemAddrs n = self n # (case submenu n of Some sm \<Rightarrow> menuItemAddrs sm | None \<Rightarrow> [])"
  by (cases n) simp

lemma itemObjects_sel:
  "itemObjects item =
     (if isSeparator item then 1
      else case subMenu item of
        Some m \<Rightarrow> Suc (Suc (sum_list (map itemObjects m)))
      | None \<Rightarrow> 1)"
  by (cases item) (auto split: option.splits)

lemma build_heap:
  "snd (snd (buildNSMenuFromJuceMenu m tgt out ttl small h)) = h + menuObjects m"
  "snd (snd (buildNSMenuFromJuceMenu_loop items tgt out small nsMenu h))
     = h + sum_list (map itemObjects items)"
proof (induct m tgt out ttl small h and items tgt out small nsMenu h
       rule: buildNSMenuFromJuceMenu_buildNSMenuFromJuceMenu_loop.induct)
  case (1 juceMenu tgt outCheckedItem menuTitle useSmallSize h)
  then show ?case by (simp add: alloc_def Let_def menuObjects_def)
next
  case (2 tgt outCheckedItem useSmallSize nsMenu h)
  then show ?case by simp
next
  case (3 item rest tgt outCheckedItem useSmallSize nsMenu h)
  then show ?case
    by (auto simp: alloc_def Let_def itemObjects_sel menuObjects_def
          split: prod.splits option.splits)
qed

lemma build_addrs:
  "(\<forall>a \<in> set (menuItemAddrs (fst (buildNSMenuFromJuceMenu m tgt out ttl small h))).
       h \<le> a \<and> a < snd (snd (buildNSMenuFromJuceMenu m tgt out ttl small h)))
   \<and> distinct (menuItemAddrs (fst (buildNSMenuFromJuceMenu m tgt out ttl small h)))"
  "(\<forall>a \<in> set (menuItemAddrs nsMenu). a < h) \<and> distinct (menuItemAddrs nsMenu) \<longrightarrow>
   (\<forall>a \<in> set (menuItemAddrs (fst (buildNSMenuFromJuceMenu_loop items tgt out small nsMenu h))).
       (a \<in> set (menuItemAddrs nsMenu) \<or> h \<le> a)
       \<and> a < snd (snd (buildNSMenuFromJuceMenu_loop items tgt out small nsMenu h)))
   \<and> distinct (menuItemAddrs (fst (buildNSMenuFromJuceMenu_loop items tgt out small nsMenu h)))"
proof (induct m tgt out ttl small h and items tgt out small nsMenu h
       rule: buildNSMenuFromJuceMenu_buildNSMenuFromJuceMenu_loop.induct)
  case (1 juceMenu tgt outCheckedItem menuTitle useSmallSize h)
  have a: "(h, Suc h) = alloc h" by (simp add: alloc_def)
  note IH = 1 [OF refl a refl refl refl]
  show ?case
  proof (cases useSmallSize)
    case True
    with IH show ?thesis by (simp add: alloc_def Let_def) (metis Suc_leD)
  next
    case False
    with IH show ?thesis by (simp add: alloc_def Let_def) (metis Suc_leD)
  qed
next
  case (2 tgt outCheckedItem useSmallSize nsMenu h)
  then show ?case by simp
next
  case (3 item rest tgt outCheckedItem useSmallSize nsMenu h)
  have a: "(h, Suc h) = alloc h" by (simp add: alloc_def)
  show ?case
  proof (cases "isSeparator item")
    case True
    with 3(1) [OF True refl a] show ?thesis
      by (fastforce simp: alloc_def)
  next
    case nsep: False
    show ?thesis
    proof (cases "subMenu item")
      case None
      with nsep 3(2) [OF nsep None refl a refl refl refl refl refl refl] show ?thesis
        by (fastforce simp: alloc_def Let_def)
    next
      case (Some sub)
      obtain subM c h1 where b:
        "buildNSMenuFromJuceMenu sub tgt None (item_text item) useSmallSize h = (subM, c, h1)"
        by (cases "buildNSMenuFromJuceMenu sub tgt None (item_text item) useSmallSize h") auto
      have h1: "h \<le> h1" using build_heap(1) [of sub tgt None "item_text item" useSmallSize h] b
        by simp
      from 3(3) [OF nsep Some] b
      have sub: "\<forall>a \<in> set (menuItemAddrs subM). h \<le> a \<and> a < h1" "distinct (menuItemAddrs subM)"
        by simp_all
      have a1: "(h1, Suc h1) = alloc h1" by (simp add: alloc_def)
      from 3(4) [OF nsep Some refl b [symmetric] refl refl a1 refl refl refl]
      show ?thesis using nsep Some b sub h1
        by (fastforce simp: alloc_def Let_def)
    qed
  qed
qed

lemma firstTicked_Some:
  "firstTicked items = Some i \<Longrightarrow>
     i < length items \<and> tickedPlain (items ! i) \<and> (\<forall>j<i. \<not> tickedPlain (items ! j))"
proof (induction items arbitrary: i)
  case Nil
  then show ?case by simp
next
  case (Cons item rest)
  show ?case
  proof (cases "tickedPlain item")
    case True
    with Cons.prems show ?thesis by (simp add: tickedPlain_def)
  next
    case False
    with Cons.prems obtain k where k: "firstTicked rest = Some k" "i = Suc k"
      by (auto simp: tickedPlain_def)
    from Cons.IH [OF k(1)] False k(2) show ?thesis
      by (auto simp: less_Suc_eq_0_disj)
  qed
qed

lemma firstTicked_None:
  "(firstTicked items = None) = (\<forall>item \<in> set items. \<not> tickedPlain item)"
  by (induction items) (auto simp: tickedPlain_def)

lemma distinct_heads:
  "distinct (concat (map (\<lambda>x. f x # g x) xs)) \<Longrightarrow> x \<in> set xs \<Longrightarrow>
     f x \<notin> set (concat (map g xs))"
proof (induction xs)
  case Nil
  then show ?case by simp
next
  case (Cons y ys)
  then show ?case by auto
qed

lemma top_level_not_nested:
  assumes d: "distinct (menuItemAddrs m)" and i: "i < length (itemArray m)"
  shows "self (itemArray m ! i) \<notin> set (submenuItemAddrs m)"
proof -
  have e: "menuItemAddrs m =
       concat (map (\<lambda>n. self n # (case submenu n of Some sm \<Rightarrow> menuItemAddrs sm | None \<Rightarrow> []))
                   (itemArray m))"
    by (cases m) (simp add: itemAddrs_sel [abs_def])
  from i have "itemArray m ! i \<in> set (itemArray m)" by simp
  from distinct_heads [OF d [unfolded e] this] show ?thesis
    by (simp add: submenuItemAddrs_def)
qed

lemma length_builtMenu: "length (itemArray (builtMenu menu small s track)) = length menu"
  using view_build(1) [of menu "heap_next s" "if track then Some None else None" "[]" small
          "Suc (heap_next s)"]
  by (metis builtMenu_def length_map length_menuView)

lemma recordedItem_top_level:
  "recordedItem menu (builtMenu menu small s track) = Some a \<Longrightarrow>
     a \<in> set (map self (itemArray (builtMenu menu small s track)))"
  by (auto simp: recordedItem_def length_builtMenu dest!: firstTicked_Some)

lemma popUp_built:
  assumes "item = None \<or> item = recordedItem menu (builtMenu menu small s track)"
    and "gSelectedMenuItemID s1 = 0"
  shows "popUpMenuPositioningItem (builtMenu menu small s track) item loc choice s1
           = Inr (s1\<lparr>gSelectedMenuItemID := chosenItemID menu choice\<rparr>)"
proof -
  have t: "trackMenu (builtMenu menu small s track) choice s1
             = s1\<lparr>gSelectedMenuItemID := chosenItemID menu choice\<rparr>"
    unfolding builtMenu_def
    by (rule trackMenu_built [OF wired_build(1) view_build(1) assms(2)])
  show ?thesis
  proof (cases item)
    case None
    with t show ?thesis by (simp add: popUpMenuPositioningItem_def)
  next
    case (Some a)
    with assms(1) have "recordedItem menu (builtMenu menu small s track) = Some a" by simp
    from recordedItem_top_level [OF this] Some t show ?thesis
      by (simp add: popUpMenuPositioningItem_def)
  qed
qed

lemma build_cell_tracked:
  "fst (snd (buildNSMenuFromJuceMenu menu (heap_next s) (Some None) [] small (Suc (heap_next s))))
     = Some (recordedItem menu (builtMenu menu small s True))"
  by (simp add: build_cell [of menu "heap_next s" "Some None"] cellAfter_def recordedItem_def
        builtMenu_def del: buildNSMenuFromJuceMenu.simps)

lemma showPopupMenuAt_eq:
  "showPopupMenuAt menu pos small env s =
     (let nsMenu = builtMenu menu small s True;
          item = recordedItem menu nsMenu;
          r = chosenItemID menu (userChoice env)
      in Inr (r,
              \<lparr>gSelectedMenuItemID = r, heap_next = Suc (heap_next s) + menuObjects menu\<rparr>,
              PopUpMenuPositioningItem nsMenu item
                (real_of_int (getX pos),
                 mainScreen_frame_height env - real_of_int (getY pos)
                   + (if item = None then 0 else 10))))"
proof -
  obtain nsMenu c h where b:
    "buildNSMenuFromJuceMenu menu (heap_next s) (Some None) [] small (Suc (heap_next s))
       = (nsMenu, c, h)"
    by (cases "buildNSMenuFromJuceMenu menu (heap_next s) (Some None) [] small
                 (Suc (heap_next s))") auto
  have m: "nsMenu = builtMenu menu small s True" using b
    by (simp add: builtMenu_def del: buildNSMenuFromJuceMenu.simps)
  have c: "c = Some (recordedItem menu (builtMenu menu small s True))"
    using build_cell_tracked [of menu s small] b
    by (simp del: buildNSMenuFromJuceMenu.simps)
  have h: "h = Suc (heap_next s) + menuObjects menu"
    using build_heap(1) [of menu "heap_next s" "Some None" "[]" small "Suc (heap_next s)"] b
    by (simp del: buildNSMenuFromJuceMenu.simps)
  show ?thesis
    by (simp add: showPopupMenuAt_def alloc_def b Let_def c m [symmetric] NSMakePoint_def
          del: buildNSMenuFromJuceMenu.simps,
        simp add: m h popUp_built del: buildNSMenuFromJuceMenu.simps)
qed

lemma showPopupMenuAtFixed_eq:
  "showPopupMenuAtFixed menu pos small env s =
     (let nsMenu = builtMenu menu small s False;
          r = chosenItemID menu (userChoice env)
      in Inr (r,
              \<lparr>gSelectedMenuItemID = r, heap_next = Suc (heap_next s) + menuObjects menu\<rparr>,
              PopUpMenuPositioningItem nsMenu None
                (real_of_int (getX pos),
                 mainScreen_frame_height env - real_of_int (getY pos))))"
proof -
  obtain nsMenu c h where b:
    "buildNSMenuFromJuceMenu menu (heap_next s) None [] small (Suc (heap_next s))
       = (nsMenu, c, h)"
    by (cases "buildNSMenuFromJuceMenu menu (heap_next s) None [] small
                 (Suc (heap_next s))") auto
  have m: "nsMenu = builtMenu menu small s False" using b
    by (simp add: builtMenu_def del: buildNSMenuFromJuceMenu.simps)
  have h: "h = Suc (heap_next s) + menuObjects menu"
    using build_heap(1) [of menu "heap_next s" None "[]" small "Suc (heap_next s)"] b
    by (simp del: buildNSMenuFromJuceMenu.simps)
  show ?thesis
    by (simp add: showPopupMenuAtFixed_def alloc_def b Let_def NSMakePoint_def
          del: buildNSMenuFromJuceMenu.simps,
        simp add: m h popUp_built del: buildNSMenuFromJuceMenu.simps)
qed

lemma showPopupMenu_eq:
  "showPopupMenu menu parentComponent small env s =
     (let nsMenu = builtMenu menu small s True;
          item = recordedItem menu nsMenu;
          r = chosenItemID menu (userChoice env);
          s' = \<lparr>gSelectedMenuItemID = r, heap_next = Suc (heap_next s) + menuObjects menu\<rparr>;
          event = (case currentEvent env of
                     Some e \<Rightarrow> e
                   | None \<Rightarrow> NSEvent NSEventTypeLeftMouseDown (mouseLocation env) 0
                               (systemUptime env) 0 0 1 1)
      in (case (case parentComponent of Some c \<Rightarrow> getWindowHandle c | None \<Rightarrow> None) of
            Some v \<Rightarrow> Inr (r, s', PopUpContextMenu nsMenu event v)
          | None \<Rightarrow> Inr (r, s', PopUpMenuPositioningItem nsMenu item (mouseLocation env))))"
proof -
  obtain nsMenu c h where b:
    "buildNSMenuFromJuceMenu menu (heap_next s) (Some None) [] small (Suc (heap_next s))
       = (nsMenu, c, h)"
    by (cases "buildNSMenuFromJuceMenu menu (heap_next s) (Some None) [] small
                 (Suc (heap_next s))") auto
  have m: "nsMenu = builtMenu menu small s True" using b
    by (simp add: builtMenu_def del: buildNSMenuFromJuceMenu.simps)
  have c: "c = Some (recordedItem menu (builtMenu menu small s True))"
    using build_cell_tracked [of menu s small] b
    by (simp del: buildNSMenuFromJuceMenu.simps)
  have h: "h = Suc (heap_next s) + menuObjects menu"
    using build_heap(1) [of menu "heap_next s" "Some None" "[]" small "Suc (heap_next s)"] b
    by (simp del: buildNSMenuFromJuceMenu.simps)
  have t: "\<And>s1. gSelectedMenuItemID s1 = 0 \<Longrightarrow>
             trackMenu (builtMenu menu small s True) (userChoice env) s1
               = s1\<lparr>gSelectedMenuItemID := chosenItemID menu (userChoice env)\<rparr>"
    unfolding builtMenu_def
    by (rule trackMenu_built [OF wired_build(1) view_build(1)])
  show ?thesis
    by (simp add: showPopupMenu_def alloc_def b Let_def c m [symmetric]
          del: buildNSMenuFromJuceMenu.simps,
        simp add: m h popUp_built popUpContextMenu_def t split: option.splits
          del: buildNSMenuFromJuceMenu.simps)
qed

lemma recordedItem_None:
  "(recordedItem menu nsMenu = None) = (\<forall>item \<in> set menu. \<not> tickedPlain item)"
  by (simp add: recordedItem_def firstTicked_None)

lemma recordedItem_Some:
  "recordedItem menu nsMenu = Some a \<Longrightarrow>
     \<exists>i<length menu. a = self (itemArray nsMenu ! i) \<and> tickedPlain (menu ! i)
        \<and> (\<forall>j<i. \<not> tickedPlain (menu ! j))"
  by (auto simp: recordedItem_def dest!: firstTicked_Some)

text \<open>
  C2.  Each of \<open>showPopupMenu\<close>, \<open>showPopupMenuAt\<close> and \<open>showPopupMenuAtFixed\<close> returns
  the identifier the user's choice stands for: 0 when the menu is dismissed, and the
  \<open>itemID\<close> of the clicked item (read back from the native item's tag) when the click
  lands on an enabled plain item, at the top level or inside a submenu.
\<close>

theorem popup_returns_choice:
  "returnValue (showPopupMenu menu parentComponent useSmallSize env s)
     = Some (chosenItemID menu (userChoice env))
   \<and> returnValue (showPopupMenuAt menu screenPosition useSmallSize env s)
     = Some (chosenItemID menu (userChoice env))
   \<and> returnValue (showPopupMenuAtFixed menu screenPosition useSmallSize env s)
     = Some (chosenItemID menu (userChoice env))
   \<and> chosenItemID menu None = 0
   \<and> (juceItemAt menu p = Some item \<and> \<not> isSeparator item \<and> subMenu item = None
        \<and> isEnabled item \<longrightarrow> chosenItemID menu (Some p) = itemID item)"
  by (simp add: showPopupMenu_eq showPopupMenuAt_eq showPopupMenuAtFixed_eq returnValue_def
        Let_def chosenItemID_def split: option.splits)

theorem popup_returns_choice_witness:
  "juceItemAt exampleMenu [2, 0] = Some (Item ''Deep'' 7 True True False None)
   \<and> \<not> isSeparator (Item ''Deep'' 7 True True False None)
   \<and> subMenu (Item ''Deep'' 7 True True False None) = None
   \<and> isEnabled (Item ''Deep'' 7 True True False None)
   \<and> returnValue (showPopupMenu exampleMenu None False exampleEnv exampleWorld) = Some 7
   \<and> returnValue (showPopupMenuAt exampleMenu (100, 200) False exampleEnv exampleWorld) = Some 7
   \<and> returnValue (showPopupMenuAtFixed exampleMenu (100, 200) False exampleEnv exampleWorld)
       = Some 7"
  using popup_returns_choice [where menu = exampleMenu and parentComponent = None
          and useSmallSize = False and env = exampleEnv and s = exampleWorld
          and screenPosition = "(100, 200)" and p = "[2, 0]"
          and item = "Item ''Deep'' 7 True True False None"]
  by (simp add: exampleMenu_def exampleEnv_def)

text \<open>
  C3.  For every screen position, \<open>showPopupMenuAt\<close> and \<open>showPopupMenuAtFixed\<close> hand the
  x coordinate on unchanged and convert the y coordinate to \<open>screenHeight - y\<close>, the main
  screen's frame height minus the JUCE y.  (\<open>showPopupMenuAt\<close> then adds 10 to the
  converted value when it positions on an item.)
\<close>

theorem popup_coordinates:
  "(\<exists>r s' nsMenu item yPos.
       showPopupMenuAt menu screenPosition useSmallSize env s
         = Inr (r, s', PopUpMenuPositioningItem nsMenu item
                  (real_of_int (getX screenPosition), if item = None then yPos else yPos + 10))
       \<and> yPos = mainScreen_frame_height env - real_of_int (getY screenPosition))
   \<and> (\<exists>r s' nsMenu.
       showPopupMenuAtFixed menu screenPosition useSmallSize env s
         = Inr (r, s', PopUpMenuPositioningItem nsMenu None
                  (real_of_int (getX screenPosition),
                   mainScreen_frame_height env - real_of_int (getY screenPosition))))"
  by (simp add: showPopupMenuAt_eq showPopupMenuAtFixed_eq Let_def)

theorem popup_coordinates_witness:
  "showPopupMenuAt exampleMenu (100, 200) False exampleEnv exampleWorld
     = Inr (7, \<lparr>gSelectedMenuItemID = 7, heap_next = 8\<rparr>,
            PopUpMenuPositioningItem (builtMenu exampleMenu False exampleWorld True) (Some 7)
              (100, 900 - 200 + 10))
   \<and> showPopupMenuAtFixed exampleMenu (100, 200) False exampleEnv exampleWorld
     = Inr (7, \<lparr>gSelectedMenuItemID = 7, heap_next = 8\<rparr>,
            PopUpMenuPositioningItem (builtMenu exampleMenu False exampleWorld False) None
              (100, 900 - 200))"
  using popup_coordinates [where menu = exampleMenu and useSmallSize = False
          and env = exampleEnv and s = exampleWorld and screenPosition = "(100, 200)"]
  by (simp add: eval_defs showPopupMenuAt_def showPopupMenuAtFixed_def builtMenu_def)

text \<open>
  C4.  \<open>showPopupMenuAt\<close> positions the menu on an item and adds 10 to the converted y
  exactly when the menu has a top-level item that is ticked, no separator and no submenu
  holder; the item is then the native item of the first such JUCE item.
  \<open>showPopupMenuAtFixed\<close> always positions with no item and adds no offset.
\<close>

theorem popup_checked_item_positioning:
  "(\<exists>r s' nsMenu item.
       showPopupMenuAt menu screenPosition useSmallSize env s
         = Inr (r, s', PopUpMenuPositioningItem nsMenu item
                  (real_of_int (getX screenPosition),
                   mainScreen_frame_height env - real_of_int (getY screenPosition)
                     + (if item = None then 0 else 10)))
       \<and> length (itemArray nsMenu) = length menu
       \<and> (item \<noteq> None) = (\<exists>it \<in> set menu. tickedPlain it)
       \<and> (\<forall>a. item = Some a \<longrightarrow>
             (\<exists>i<length menu. a = self (itemArray nsMenu ! i) \<and> tickedPlain (menu ! i)
                \<and> (\<forall>j<i. \<not> tickedPlain (menu ! j)))))
   \<and> (\<exists>r s' nsMenu.
       showPopupMenuAtFixed menu screenPosition useSmallSize env s
         = Inr (r, s', PopUpMenuPositioningItem nsMenu None
                  (real_of_int (getX screenPosition),
                   mainScreen_frame_height env - real_of_int (getY screenPosition))))"
proof -
  let ?nsMenu = "builtMenu menu useSmallSize s True"
  let ?item = "recordedItem menu ?nsMenu"
  have 1: "(?item \<noteq> None) = (\<exists>it \<in> set menu. tickedPlain it)"
    using recordedItem_None [of menu ?nsMenu] by simp
  have 2: "\<forall>a. ?item = Some a \<longrightarrow>
             (\<exists>i<length menu. a = self (itemArray ?nsMenu ! i) \<and> tickedPlain (menu ! i)
                \<and> (\<forall>j<i. \<not> tickedPlain (menu ! j)))"
    using recordedItem_Some [of menu ?nsMenu] by blast
  have "\<exists>r s'. showPopupMenuAt menu screenPosition useSmallSize env s
         = Inr (r, s', PopUpMenuPositioningItem ?nsMenu ?item
                  (real_of_int (getX screenPosition),
                   mainScreen_frame_height env - real_of_int (getY screenPosition)
                     + (if ?item = None then 0 else 10)))"
    by (simp add: showPopupMenuAt_eq Let_def)
  with 1 2 length_builtMenu [of menu useSmallSize s True]
  have "\<exists>r s' nsMenu item.
       showPopupMenuAt menu screenPosition useSmallSize env s
         = Inr (r, s', PopUpMenuPositioningItem nsMenu item
                  (real_of_int (getX screenPosition),
                   mainScreen_frame_height env - real_of_int (getY screenPosition)
                     + (if item = None then 0 else 10)))
       \<and> length (itemArray nsMenu) = length menu
       \<and> (item \<noteq> None) = (\<exists>it \<in> set menu. tickedPlain it)
       \<and> (\<forall>a. item = Some a \<longrightarrow>
             (\<exists>i<length menu. a = self (itemArray nsMenu ! i) \<and> tickedPlain (menu ! i)
                \<and> (\<forall>j<i. \<not> tickedPlain (menu ! j))))"
    by blast
  then show ?thesis by (simp add: showPopupMenuAtFixed_eq Let_def)
qed

theorem popup_checked_item_positioning_witness:
  "tickedPlain (exampleMenu ! 3)
   \<and> \<not> tickedPlain (exampleMenu ! 0)
   \<and> \<not> tickedPlain (exampleMenu ! 1)
   \<and> \<not> tickedPlain (exampleMenu ! 2)
   \<and> self (itemArray (builtMenu exampleMenu False exampleWorld True) ! 3) = 7
   \<and> showPopupMenuAt exampleMenu (100, 200) False exampleEnv exampleWorld
     = Inr (7, \<lparr>gSelectedMenuItemID = 7, heap_next = 8\<rparr>,
            PopUpMenuPositioningItem (builtMenu exampleMenu False exampleWorld True) (Some 7)
              (100, 710))
   \<and> showPopupMenuAtFixed exampleMenu (100, 200) False exampleEnv exampleWorld
     = Inr (7, \<lparr>gSelectedMenuItemID = 7, heap_next = 8\<rparr>,
            PopUpMenuPositioningItem (builtMenu exampleMenu False exampleWorld False) None
              (100, 700))"
  using popup_checked_item_positioning [where menu = exampleMenu and useSmallSize = False
          and env = exampleEnv and s = exampleWorld and screenPosition = "(100, 200)"]
  by (simp add: eval_defs showPopupMenuAt_def showPopupMenuAtFixed_def builtMenu_def
        tickedPlain_def less_Suc_eq numeral_3_eq_3)

text \<open>
  C7.  No state of an earlier call is observable: each entry point resets
  \<open>gSelectedMenuItemID\<close> before it shows the menu, so its whole outcome is the same for
  every value the variable held before, and the value it returns is the same in any two
  worlds for the same menu and the same user choice.
\<close>

theorem popup_stateless:
  "showPopupMenu menu parentComponent useSmallSize env (s\<lparr>gSelectedMenuItemID := g\<rparr>)
     = showPopupMenu menu parentComponent useSmallSize env (s\<lparr>gSelectedMenuItemID := g'\<rparr>)
   \<and> showPopupMenuAt menu screenPosition useSmallSize env (s\<lparr>gSelectedMenuItemID := g\<rparr>)
     = showPopupMenuAt menu screenPosition useSmallSize env (s\<lparr>gSelectedMenuItemID := g'\<rparr>)
   \<and> showPopupMenuAtFixed menu screenPosition useSmallSize env (s\<lparr>gSelectedMenuItemID := g\<rparr>)
     = showPopupMenuAtFixed menu screenPosition useSmallSize env (s\<lparr>gSelectedMenuItemID := g'\<rparr>)
   \<and> returnValue (showPopupMenu menu parentComponent useSmallSize env sa)
     = returnValue (showPopupMenu menu parentComponent useSmallSize env sb)
   \<and> returnValue (showPopupMenuAt menu screenPosition useSmallSize env sa)
     = returnValue (showPopupMenuAt menu screenPosition useSmallSize env sb)
   \<and> returnValue (showPopupMenuAtFixed menu screenPosition useSmallSize env sa)
     = returnValue (showPopupMenuAtFixed menu screenPosition useSmallSize env sb)"
proof -
  have a: "showPopupMenu menu parentComponent useSmallSize env (s\<lparr>gSelectedMenuItemID := g\<rparr>)
     = showPopupMenu menu parentComponent useSmallSize env (s\<lparr>gSelectedMenuItemID := g'\<rparr>)"
    by (simp add: showPopupMenu_def del: buildNSMenuFromJuceMenu.simps)
  have b: "showPopupMenuAt menu screenPosition useSmallSize env (s\<lparr>gSelectedMenuItemID := g\<rparr>)
     = showPopupMenuAt menu screenPosition useSmallSize env (s\<lparr>gSelectedMenuItemID := g'\<rparr>)"
    by (simp add: showPopupMenuAt_def del: buildNSMenuFromJuceMenu.simps)
  have c: "showPopupMenuAtFixed menu screenPosition useSmallSize env (s\<lparr>gSelectedMenuItemID := g\<rparr>)
     = showPopupMenuAtFixed menu screenPosition useSmallSize env (s\<lparr>gSelectedMenuItemID := g'\<rparr>)"
    by (simp add: showPopupMenuAtFixed_def del: buildNSMenuFromJuceMenu.simps)
  have d: "returnValue (showPopupMenu menu parentComponent useSmallSize env sa)
     = returnValue (showPopupMenu menu parentComponent useSmallSize env sb)"
    by (simp add: showPopupMenu_eq returnValue_def Let_def split: option.splits)
  have e: "returnValue (showPopupMenuAt menu screenPosition useSmallSize env sa)
     = returnValue (showPopupMenuAt menu screenPosition useSmallSize env sb)"
    by (simp add: showPopupMenuAt_eq returnValue_def Let_def)
  have f: "returnValue (showPopupMenuAtFixed menu screenPosition useSmallSize env sa)
     = returnValue (showPopupMenuAtFixed menu screenPosition useSmallSize env sb)"
    by (simp add: showPopupMenuAtFixed_eq returnValue_def Let_def)
  from a b c d e f show ?thesis by blast
qed

theorem popup_stateless_witness:
  "showPopupMenuAt exampleMenu (100, 200) False exampleEnv
       (exampleWorld\<lparr>gSelectedMenuItemID := 42\<rparr>)
     = showPopupMenuAt exampleMenu (100, 200) False exampleEnv
         (exampleWorld\<lparr>gSelectedMenuItemID := 0\<rparr>)
   \<and> returnValue (showPopupMenuAt exampleMenu (100, 200) False exampleEnv exampleWorld)
     = returnValue (showPopupMenuAt exampleMenu (100, 200) False exampleEnv
                      \<lparr>gSelectedMenuItemID = 9, heap_next = 30\<rparr>)"
  using popup_stateless [where menu = exampleMenu and useSmallSize = False
          and env = exampleEnv and s = exampleWorld and g = 42 and g' = 0
          and sa = exampleWorld and sb = "\<lparr>gSelectedMenuItemID = 9, heap_next = 30\<rparr>"
          and screenPosition = "(100, 200)" and parentComponent = None]
  by blast

lemma subMenu_smaller: "subMenu item = Some sub \<Longrightarrow> size_list size sub < size item"
  by (cases item) simp

lemma build_calls:
  "buildNSMenuFromJuceMenu_buildNSMenuFromJuceMenu_loop_rel
       (Inl (sub, tgt', out', ttl', small', h')) caller \<Longrightarrow>
     out' = None \<and>
     (\<exists>item rest args. caller = Inr (item # rest, args) \<and> \<not> isSeparator item
        \<and> subMenu item = Some sub \<and> size_list size sub < size item)"
  by (erule buildNSMenuFromJuceMenu_buildNSMenuFromJuceMenu_loop_rel.cases)
     (auto dest: subMenu_smaller)

lemma loop_calls:
  "buildNSMenuFromJuceMenu_buildNSMenuFromJuceMenu_loop_rel (Inr (items', args')) caller \<Longrightarrow>
     (\<exists>args. caller = Inl (items', args)) \<or> (\<exists>item args. caller = Inr (item # items', args))"
  by (erule buildNSMenuFromJuceMenu_buildNSMenuFromJuceMenu_loop_rel.cases) auto

lemma call_decreases:
  "buildNSMenuFromJuceMenu_buildNSMenuFromJuceMenu_loop_rel x y \<Longrightarrow>
     callMeasure x < callMeasure y"
  by (erule buildNSMenuFromJuceMenu_buildNSMenuFromJuceMenu_loop_rel.cases)
     (auto simp: callMeasure_def dest: subMenu_smaller)

lemma build_total: "buildNSMenuFromJuceMenu_buildNSMenuFromJuceMenu_loop_dom x"
proof (induction "callMeasure x" arbitrary: x rule: less_induct)
  case less
  show ?case
  proof (rule accpI)
    fix y
    assume "buildNSMenuFromJuceMenu_buildNSMenuFromJuceMenu_loop_rel y x"
    from call_decreases [OF this]
    show "buildNSMenuFromJuceMenu_buildNSMenuFromJuceMenu_loop_dom y"
      by (rule less)
  qed
qed

text \<open>
  C8.  The conversion terminates on every menu.  Every argument tuple lies in the domain
  of the recursion; a recursive call of \<open>buildNSMenuFromJuceMenu\<close> is made only from the
  loop, on the submenu of the item at hand, which is strictly smaller than the item; the
  loop is entered on the whole item list and continues on the tail; one conversion
  creates exactly one menu object per menu and one item object per item, so it is a
  single pass; and each entry point creates its target object and runs one conversion.
\<close>

theorem build_terminates:
  "buildNSMenuFromJuceMenu_buildNSMenuFromJuceMenu_loop_dom
       (Inl (juceMenu, tgt, outCheckedItem, menuTitle, useSmallSize, h))
   \<and> snd (snd (buildNSMenuFromJuceMenu juceMenu tgt outCheckedItem menuTitle useSmallSize h))
       = h + menuObjects juceMenu
   \<and> (buildNSMenuFromJuceMenu_buildNSMenuFromJuceMenu_loop_rel (Inl (sub, args)) caller \<longrightarrow>
        (\<exists>item rest args'. caller = Inr (item # rest, args') \<and> \<not> isSeparator item
           \<and> subMenu item = Some sub \<and> size_list size sub < size item))
   \<and> (buildNSMenuFromJuceMenu_buildNSMenuFromJuceMenu_loop_rel (Inr (items, largs)) lcaller \<longrightarrow>
        (\<exists>args'. lcaller = Inl (items, args'))
        \<or> (\<exists>item args'. lcaller = Inr (item # items, args')))
   \<and> (\<exists>r c. showPopupMenu juceMenu parentComponent useSmallSize env s
         = Inr (r, \<lparr>gSelectedMenuItemID = r,
                     heap_next = Suc (heap_next s) + menuObjects juceMenu\<rparr>, c))
   \<and> (\<exists>r c. showPopupMenuAt juceMenu screenPosition useSmallSize env s
         = Inr (r, \<lparr>gSelectedMenuItemID = r,
                     heap_next = Suc (heap_next s) + menuObjects juceMenu\<rparr>, c))
   \<and> (\<exists>r c. showPopupMenuAtFixed juceMenu screenPosition useSmallSize env s
         = Inr (r, \<lparr>gSelectedMenuItemID = r,
                     heap_next = Suc (heap_next s) + menuObjects juceMenu\<rparr>, c))"
proof -
  have 1: "buildNSMenuFromJuceMenu_buildNSMenuFromJuceMenu_loop_rel (Inl (sub, args)) caller \<longrightarrow>
        (\<exists>item rest args'. caller = Inr (item # rest, args') \<and> \<not> isSeparator item
           \<and> subMenu item = Some sub \<and> size_list size sub < size item)"
    by (cases args) (auto dest!: build_calls)
  have 2: "buildNSMenuFromJuceMenu_buildNSMenuFromJuceMenu_loop_rel (Inr (items, largs)) lcaller \<longrightarrow>
        (\<exists>args'. lcaller = Inl (items, args'))
        \<or> (\<exists>item args'. lcaller = Inr (item # items, args'))"
    using loop_calls [of items largs lcaller] by blast
  have 3: "\<exists>r c. showPopupMenu juceMenu parentComponent useSmallSize env s
         = Inr (r, \<lparr>gSelectedMenuItemID = r,
                     heap_next = Suc (heap_next s) + menuObjects juceMenu\<rparr>, c)"
    by (simp add: showPopupMenu_eq Let_def split: option.splits)
  have 4: "\<exists>r c. showPopupMenuAt juceMenu screenPosition useSmallSize env s
         = Inr (r, \<lparr>gSelectedMenuItemID = r,
                     heap_next = Suc (heap_next s) + menuObjects juceMenu\<rparr>, c)"
    by (simp add: showPopupMenuAt_eq Let_def)
  have 5: "\<exists>r c. showPopupMenuAtFixed juceMenu screenPosition useSmallSize env s
         = Inr (r, \<lparr>gSelectedMenuItemID = r,
                     heap_next = Suc (heap_next s) + menuObjects juceMenu\<rparr>, c)"
    by (simp add: showPopupMenuAtFixed_eq Let_def)
  from 1 2 3 4 5 build_total build_heap(1) show ?thesis by blast
qed

theorem build_terminates_witness:
  "buildNSMenuFromJuceMenu_buildNSMenuFromJuceMenu_loop_dom
       (Inl (exampleMenu, 0, Some None, [], False, 1))
   \<and> snd (snd (buildNSMenuFromJuceMenu exampleMenu 0 (Some None) [] False 1)) = 8
   \<and> menuObjects exampleMenu = 7
   \<and> showPopupMenuAtFixed exampleMenu (100, 200) False exampleEnv exampleWorld
       = Inr (7, \<lparr>gSelectedMenuItemID = 7, heap_next = 8\<rparr>,
              PopUpMenuPositioningItem (builtMenu exampleMenu False exampleWorld False) None
                (100, 700))
   \<and> buildNSMenuFromJuceMenu_buildNSMenuFromJuceMenu_loop_rel
     (Inl ([Item ''Deep'' 7 True True False None], 0, None,
           item_text (Item ''More'' 0 True False False
                        (Some [Item ''Deep'' 7 True True False None])), False, 4))
     (Inr (Item ''More'' 0 True False False (Some [Item ''Deep'' 7 True True False None])
             # [Item ''Big'' 5 True True False None],
           0, Some None, False, NSMenu 1 [] False None [], 4))
   \<and> buildNSMenuFromJuceMenu_buildNSMenuFromJuceMenu_loop_rel
     (Inr ([Item ''Big'' 5 True True False None], 0, Some None, False,
           addItem (separatorItem 3) (NSMenu 1 [] False None []), 4))
     (Inr (Item [] 0 True False True None # [Item ''Big'' 5 True True False None],
           0, Some None, False, NSMenu 1 [] False None [], 3))"
  using build_terminates [where juceMenu = exampleMenu and tgt = 0
          and outCheckedItem = "Some None" and menuTitle = "[]" and useSmallSize = False
          and h = 1 and env = exampleEnv and s = exampleWorld
          and screenPosition = "(100, 200)" and parentComponent = None
          and sub = "[Item ''Deep'' 7 True True False None]"
          and args = "(0, None, item_text (Item ''More'' 0 True False False
                        (Some [Item ''Deep'' 7 True True False None])), False, 4)"
          and caller = "Inr (Item ''More'' 0 True False False
                               (Some [Item ''Deep'' 7 True True False None])
                             # [Item ''Big'' 5 True True False None],
                             0, Some None, False, NSMenu 1 [] False None [], 4)"
          and items = "[Item ''Big'' 5 True True False None]"
          and largs = "(0, Some None, False,
                        addItem (separatorItem 3) (NSMenu 1 [] False None []), 4)"
          and lcaller = "Inr (Item [] 0 True False True None
                               # [Item ''Big'' 5 True True False None],
                              0, Some None, False, NSMenu 1 [] False None [], 3)"]
    example_recursive_call example_loop_call
  by (simp add: eval_defs menuObjects_def showPopupMenuAtFixed_def builtMenu_def)

text \<open>
  C5.  The item recorded for positioning is never one inside a submenu: whatever address
  the cell ends up holding is the address of a top-level item of the built menu and of no
  item inside any submenu; every recursive call passes the null pointer, and a call with
  the null pointer records nothing; so no entry point can reach the failure of
  positioning on an item that is not in the menu.
\<close>

theorem checked_item_is_top_level:
  "(fst (snd (buildNSMenuFromJuceMenu menu tgt (Some None) ttl small h)) = Some (Some a) \<longrightarrow>
      a \<in> set (map self (itemArray (fst (buildNSMenuFromJuceMenu menu tgt (Some None) ttl small h))))
      \<and> a \<notin> set (submenuItemAddrs (fst (buildNSMenuFromJuceMenu menu tgt (Some None) ttl small h))))
   \<and> (buildNSMenuFromJuceMenu_buildNSMenuFromJuceMenu_loop_rel
         (Inl (sub, tgt', out', args)) caller \<longrightarrow> out' = None)
   \<and> fst (snd (buildNSMenuFromJuceMenu menu tgt None ttl small h)) = None
   \<and> showPopupMenu menu parentComponent small env s \<noteq> Inl PositioningItemNotInMenu
   \<and> showPopupMenuAt menu screenPosition small env s \<noteq> Inl PositioningItemNotInMenu
   \<and> showPopupMenuAtFixed menu screenPosition small env s \<noteq> Inl PositioningItemNotInMenu"
proof -
  let ?R = "buildNSMenuFromJuceMenu menu tgt (Some None) ttl small h"
  have 1: "fst (snd ?R) = Some (Some a) \<longrightarrow>
      a \<in> set (map self (itemArray (fst ?R))) \<and> a \<notin> set (submenuItemAddrs (fst ?R))"
  proof
    assume c: "fst (snd ?R) = Some (Some a)"
    have len: "length (itemArray (fst ?R)) = length menu"
      using view_build(1) [of menu tgt "Some None" ttl small h]
      by (metis length_map length_menuView)
    from c build_cell [of menu tgt "Some None" ttl small h]
    obtain i where i: "firstTicked menu = Some i" "a = self (itemArray (fst ?R) ! i)"
      by (auto simp: cellAfter_def simp del: buildNSMenuFromJuceMenu.simps)
    from firstTicked_Some [OF i(1)] len have il: "i < length (itemArray (fst ?R))" by simp
    from build_addrs(1) [of menu tgt "Some None" ttl small h]
    have "distinct (menuItemAddrs (fst ?R))" by blast
    from top_level_not_nested [OF this il] il i(2)
    show "a \<in> set (map self (itemArray (fst ?R))) \<and> a \<notin> set (submenuItemAddrs (fst ?R))"
      by simp
  qed
  have 2: "buildNSMenuFromJuceMenu_buildNSMenuFromJuceMenu_loop_rel
         (Inl (sub, tgt', out', args)) caller \<longrightarrow> out' = None"
    by (cases args) (auto dest!: build_calls)
  have 3: "fst (snd (buildNSMenuFromJuceMenu menu tgt None ttl small h)) = None"
    by (simp add: build_cell [of menu tgt None] cellAfter_def
          del: buildNSMenuFromJuceMenu.simps)
  have 4: "showPopupMenu menu parentComponent small env s \<noteq> Inl PositioningItemNotInMenu"
    by (simp add: showPopupMenu_eq Let_def split: option.splits)
  have 5: "showPopupMenuAt menu screenPosition small env s \<noteq> Inl PositioningItemNotInMenu"
    by (simp add: showPopupMenuAt_eq Let_def)
  have 6: "showPopupMenuAtFixed menu screenPosition small env s \<noteq> Inl PositioningItemNotInMenu"
    by (simp add: showPopupMenuAtFixed_eq Let_def)
  from 1 2 3 4 5 6 show ?thesis by blast
qed


theorem checked_item_is_top_level_witness:
  "fst (snd (buildNSMenuFromJuceMenu exampleMenu 0 (Some None) [] False 1)) = Some (Some 7)
   \<and> map self (itemArray (fst (buildNSMenuFromJuceMenu exampleMenu 0 (Some None) [] False 1)))
       = [2, 3, 6, 7]
   \<and> submenuItemAddrs (fst (buildNSMenuFromJuceMenu exampleMenu 0 (Some None) [] False 1)) = [5]
   \<and> buildNSMenuFromJuceMenu_buildNSMenuFromJuceMenu_loop_rel
     (Inl ([Item ''Deep'' 7 True True False None], 0, None,
           item_text (Item ''More'' 0 True False False
                        (Some [Item ''Deep'' 7 True True False None])), False, 4))
     (Inr (Item ''More'' 0 True False False (Some [Item ''Deep'' 7 True True False None])
             # [Item ''Big'' 5 True True False None],
           0, Some None, False, NSMenu 1 [] False None [], 4))
   \<and> showPopupMenuAt exampleMenu (100, 200) False exampleEnv exampleWorld
       \<noteq> Inl PositioningItemNotInMenu"
  using checked_item_is_top_level [where menu = exampleMenu and tgt = 0 and ttl = "[]"
          and small = False and h = 1 and a = 7 and env = exampleEnv and s = exampleWorld
          and screenPosition = "(100, 200)"
          and sub = "[Item ''Deep'' 7 True True False None]" and tgt' = 0 and out' = None
          and args = "(item_text (Item ''More'' 0 True False False
                        (Some [Item ''Deep'' 7 True True False None])), False, 4)"
          and caller = "Inr (Item ''More'' 0 True False False
                               (Some [Item ''Deep'' 7 True True False None])
                             # [Item ''Big'' 5 True True False None],
                             0, Some None, False, NSMenu 1 [] False None [], 4)"]
    example_recursive_call
  by (simp add: eval_defs submenuItemAddrs_def)

end
